theory Spec2Isabelle
  imports Main "HOL-Library.Word" "HOL-Library.Multiset"
begin

section \<open>Strings and key codes\<close>

text \<open>
  A JavaScript string is a sequence of 16-bit code units, and \<open>length\<close> counts code
  units. Key codes, scores and counters are JavaScript numbers that only ever hold
  integers here; they are modelled as \<open>int\<close>.
\<close>

type_synonym jschar = "16 word"
type_synonym jsstring = "jschar list"

definition str :: "string \<Rightarrow> jsstring" where
  \<comment> \<open>an ASCII literal as a JavaScript string\<close>
  "str s = map of_char s"

definition newline :: jschar where
  \<comment> \<open>the one-character string "\n"\<close>
  "newline = 10"

text \<open>
  \<open>app.js\<close> imports the table \<open>keyCodes\<close> from \<open>keycodes.js\<close>; the table is a
  parameter of every function that reads it. The fields are the ones \<open>app.js\<close>
  reads: \<open>keyCodes.enter\<close>, \<open>keyCodes.ctrl\<close>, \<open>keyCodes.nums.start\<close>,
  \<open>keyCodes.nums.end\<close> and so on.
\<close>

record key_range =
  range_start :: int
  range_end :: int

record keyCodes =
  enter :: int
  ctrl :: int
  backspace :: int
  left_arrow :: int
  right_arrow :: int
  nums :: key_range
  alpha :: key_range
  punct :: key_range

record key_event =
  keyCode :: int

text \<open>
  lodash's \<open>_.inRange(number, start, end)\<close>: \<open>start\<close> up to, but not including,
  \<open>end\<close>; when \<open>start\<close> is greater than \<open>end\<close> the two are swapped.
\<close>

definition inRange :: "int \<Rightarrow> int \<Rightarrow> int \<Rightarrow> bool" where
  "inRange number start end' = (min start end' \<le> number \<and> number < max start end')"

text \<open>
  \<open>validKeycode(ev, leftChar)\<close> reads and writes the module-level variable
  \<open>ctrl_down\<close>; the model takes its value and returns the verdict together with the new
  value. \<open>leftChar\<close> is \<open>None\<close> when the indexing \<open>this.cmd[i]\<close> gave \<open>undefined\<close>.
\<close>

definition validKeycode :: "keyCodes \<Rightarrow> key_event \<Rightarrow> jschar option \<Rightarrow> bool \<Rightarrow> bool \<times> bool" where
  "validKeycode kcs ev leftChar ctrl_down =
     (let kc = keyCode ev;
          ctrl_down1 = (if kc = ctrl kcs then True else ctrl_down)
      in if ctrl_down1 then (False, ctrl_down1)
         else
           let alphanumeric =
                 (inRange kc (range_start (nums kcs)) (range_end (nums kcs) + 1) \<or>
                  inRange kc (range_start (alpha kcs)) (range_end (alpha kcs) + 1) \<or>
                  inRange kc (range_start (punct kcs)) (range_end (punct kcs) + 1));
               valid_other =
                 (kc \<in> set [enter kcs, right_arrow kcs] \<or>
                  (leftChar \<noteq> Some newline \<and>
                     (kc = left_arrow kcs \<or> kc = backspace kcs)))
           in (alphanumeric \<or> valid_other, ctrl_down1))"

section \<open>The trailing line of the buffer\<close>

text \<open>
  \<open>testCmd\<close> computes \<open>_(this.cmd).split("\n").last().trim()\<close>. The pieces:
  \<open>split\<close> with a one-character separator and no limit cuts the string at every
  occurrence of the separator and always returns at least one segment (the empty string
  gives one empty segment); \<open>last\<close> takes the final segment; \<open>trim\<close> removes the
  white space and line terminators of ECMAScript from both ends.
\<close>

fun split_from :: "jschar \<Rightarrow> jsstring \<Rightarrow> jsstring \<Rightarrow> jsstring list" where
  "split_from sep cur [] = [cur]"
| "split_from sep cur (c # cs) =
     (if c = sep then cur # split_from sep [] cs else split_from sep (cur @ [c]) cs)"

definition split_str :: "jsstring \<Rightarrow> jschar \<Rightarrow> jsstring list" where
  "split_str s sep = split_from sep [] s"

definition isWhiteSpace :: "jschar \<Rightarrow> bool" where
  \<comment> \<open>WhiteSpace and LineTerminator: TAB, LF, VT, FF, CR, SP, NBSP, the space separators
      of Unicode, LS, PS and the byte order mark\<close>
  "isWhiteSpace c =
     (c \<in> set [0x0009, 0x000A, 0x000B, 0x000C, 0x000D, 0x0020, 0x00A0, 0x1680,
               0x2028, 0x2029, 0x202F, 0x205F, 0x3000, 0xFEFF] \<or>
      (0x2000 \<le> c \<and> c \<le> 0x200A))"

definition trim :: "jsstring \<Rightarrow> jsstring" where
  "trim s = rev (dropWhile isWhiteSpace (rev (dropWhile isWhiteSpace s)))"

text \<open>
  The trailing line in the words of the specification: the part of the buffer after the
  last newline (the whole buffer when it has none), with leading and trailing white
  space stripped.
\<close>

definition after_last_newline :: "jsstring \<Rightarrow> jsstring" where
  "after_last_newline buffer = rev (takeWhile (\<lambda>c. c \<noteq> newline) (rev buffer))"

definition spec_trailing_line :: "jsstring \<Rightarrow> jsstring" where
  "spec_trailing_line buffer = trim (after_last_newline buffer)"

section \<open>The dictionary\<close>

datatype lang = Bash | Js | Py | Html

text \<open>
  \<open>cmds.cmdsByLang\<close> has one entry per language, each with its list \<open>cmds\<close>;
  the lists themselves are data outside \<open>app.js\<close> and are a parameter.
\<close>

type_synonym cmdsByLang = "lang \<Rightarrow> jsstring list"

text \<open>What \<open>cmds.find\<close> returns, as far as \<open>testCmd\<close> reads it: \<open>{cmd, lang}\<close>.\<close>

record find_result =
  found_cmd :: "jsstring option"
  found_lang :: "lang list"

text \<open>
  Modelled from the spec: \<open>cmds.find\<close> of \<open>cmds.js\<close>, which is not among the sources.
  The specification's command matcher compares the line, case-sensitively and as a
  whole, with every command of every language; the empty line is never matched; the
  result names every language under which that exact string appears, and the matched
  command when there is one.
\<close>

definition find_cmd :: "cmdsByLang \<Rightarrow> jsstring \<Rightarrow> find_result" where
  "find_cmd dict line =
     (if line = [] then \<lparr>found_cmd = None, found_lang = []\<rparr>
      else
        let langs = filter (\<lambda>l. line \<in> set (dict l)) [Bash, Js, Py, Html]
        in \<lparr>found_cmd = (if langs = [] then None else Some line), found_lang = langs\<rparr>)"

section \<open>The view model\<close>

text \<open>
  Modelled from the spec: the phases of \<open>states.js\<close>, which is not among the sources.
  \<open>app.js\<close> names \<open>STATES.loading\<close>, \<open>STATES.title\<close> and \<open>STATES.play\<close>; the
  specification adds the end (score) phase.
\<close>

datatype phase = Loading | Title | Play | End

record counters =
  js :: int
  bash :: int
  html :: int
  py :: int
  totalValidCharacters :: int
  totalValidCommands :: int

text \<open>
  The \<open>data\<close> of the Vue instance. \<open>titleState\<close> is not declared in \<open>data\<close>; it
  is first assigned by \<open>toState\<close> and is \<open>undefined\<close> (\<open>None\<close>) before that.
\<close>

record app_data =
  state :: phase
  showTitle :: bool
  cmd :: jsstring
  commands :: "jsstring list"
  displayScore :: bool
  gameDuration :: int
  timer :: int
  allowTyping :: bool
  score :: int
  count :: counters
  titleState :: "bool option"

definition initial_data :: app_data where
  "initial_data =
     \<lparr>state = Loading, showTitle = False, cmd = [], commands = [], displayScore = False,
      gameDuration = 60 * 1000, timer = 0, allowTyping = False, score = 0,
      count = \<lparr>js = 0, bash = 0, html = 0, py = 0,
               totalValidCharacters = 0, totalValidCommands = 0\<rparr>,
      titleState = None\<rparr>"

text \<open>The whole mutable state: the instance's data and the module variable \<open>ctrl_down\<close>.\<close>

record world =
  app :: app_data
  ctrl_down :: bool

definition initial_world :: world where
  "initial_world = \<lparr>app = initial_data, ctrl_down = False\<rparr>"

section \<open>The methods of the instance\<close>

text \<open>
  The hooks \<open>onKeyPress\<close>, \<open>onResult\<close> and \<open>onStateChange\<close> are modelled as
  \<open>app.js\<close> defines them: the first two are \<open>_.noop\<close>, the third writes a line to the
  console. The callbacks handed to \<open>$nextTick\<close> (the \<open>onResult\<close> hook and the
  blur and focus of the textarea) run after the handler has returned and write no data;
  they are left out.
\<close>

record change =
  change_from :: phase
  change_to :: phase

definition onStateChange :: "change \<Rightarrow> app_data \<Rightarrow> app_data" where
  "onStateChange ch a = a"

text \<open>
  \<open>toState\<close> calls \<open>this.onStateChange(change)\<close>, a property of the instance that a
  handler can be assigned to. \<open>toState_with\<close> is the body of \<open>toState\<close> with the
  handler in that property as its first argument; \<open>toState\<close> is the method with the
  property as \<open>app.js\<close> leaves it.
\<close>

definition toState_with ::
  "(change \<Rightarrow> app_data \<Rightarrow> app_data) \<Rightarrow> phase \<Rightarrow> app_data \<Rightarrow> app_data" where
  "toState_with hook st a =
     (let ch = \<lparr>change_from = state a, change_to = st\<rparr>;
          a1 = a\<lparr>state := st\<rparr>;
          a2 = a1\<lparr>titleState := Some (st = Title)\<rparr>
      in hook ch a2)"

definition toState :: "phase \<Rightarrow> app_data \<Rightarrow> app_data" where
  "toState st a = toState_with onStateChange st a"

definition onKeyPress :: "key_event \<Rightarrow> world \<Rightarrow> world" where
  "onKeyPress ev w = w"

text \<open>\<open>!!matchedCmd\<close>: \<open>undefined\<close> and the empty string are falsy.\<close>

definition truthy :: "jsstring option \<Rightarrow> bool" where
  "truthy m = (case m of None \<Rightarrow> False | Some s \<Rightarrow> s \<noteq> [])"

text \<open>
  The object \<open>{ cmd, valid: !!matchedCmd, matchedCmd, lang }\<close> of \<open>testCmd\<close>; its
  fields \<open>cmd\<close> and \<open>lang\<close> are \<open>result_cmd\<close> and \<open>result_lang\<close> here.
\<close>

record result =
  result_cmd :: jsstring
  valid :: bool
  matchedCmd :: "jsstring option"
  result_lang :: "lang list"

text \<open>
  \<open>testCmd\<close>, with \<open>cmds.find\<close> as the parameter \<open>fnd\<close>. \<open>last\<close> is applied to
  the result of a split, which is never empty (lemma \<open>split_str_not_Nil\<close>).
\<close>

definition testCmd :: "(jsstring \<Rightarrow> find_result) \<Rightarrow> app_data \<Rightarrow> result" where
  "testCmd fnd a =
     (let c = trim (last (split_str (cmd a) newline));
          r = fnd c
      in \<lparr>result_cmd = c, valid = truthy (found_cmd r),
          matchedCmd = found_cmd r, result_lang = found_lang r\<rparr>)"

text \<open>\<open>this.cmd[i]\<close>: the code unit at index \<open>i\<close>, \<open>undefined\<close> out of range.\<close>

definition char_at :: "jsstring \<Rightarrow> int \<Rightarrow> jschar option" where
  "char_at s i = (if 0 \<le> i \<and> i < int (length s) then Some (s ! nat i) else None)"

record textarea =
  selectionStart :: nat

text \<open>\<open>app.count[lang]++\<close>\<close>

fun incr_count :: "counters \<Rightarrow> lang \<Rightarrow> counters" where
  "incr_count c Js = c\<lparr>js := js c + 1\<rparr>"
| "incr_count c Bash = c\<lparr>bash := bash c + 1\<rparr>"
| "incr_count c Html = c\<lparr>html := html c + 1\<rparr>"
| "incr_count c Py = c\<lparr>py := py c + 1\<rparr>"

text \<open>
  The effect of an accepted Enter on the data, lines 106 to 115 of \<open>app.js\<close>: one
  increment per language of the result, then, for a valid result, the score and the two
  totals.
\<close>

definition apply_result :: "result \<Rightarrow> app_data \<Rightarrow> app_data" where
  "apply_result r a =
     (let a1 = a\<lparr>count := foldl incr_count (count a) (result_lang r)\<rparr>
      in if valid r then
           a1\<lparr>score := score a1 + (10 + int (length (result_cmd r))) * 100,
              count := (count a1)
                \<lparr>totalValidCommands := totalValidCommands (count a1) + 1,
                 totalValidCharacters :=
                   totalValidCharacters (count a1) + int (length (result_cmd r))\<rparr>\<rparr>
         else a1)"

text \<open>
  \<open>handleKeypress\<close> returns the new state and whether \<open>ev.preventDefault()\<close> was
  called.
\<close>

definition handleKeypress ::
  "keyCodes \<Rightarrow> (jsstring \<Rightarrow> find_result) \<Rightarrow> key_event \<Rightarrow> textarea \<Rightarrow> world \<Rightarrow> world \<times> bool" where
  "handleKeypress kcs fnd ev ta w0 =
     (let w = onKeyPress ev w0
      in if \<not> allowTyping (app w) then (w, True)
         else
           let leftChar = char_at (cmd (app w)) (int (selectionStart ta) - 1)
           in if keyCode ev = enter kcs then
                let r = testCmd fnd (app w)
                in (w\<lparr>app := apply_result r (app w)\<rparr>, True)
              else
                let (ok, flag) = validKeycode kcs ev leftChar (ctrl_down w)
                in (w\<lparr>ctrl_down := flag\<rparr>, \<not> ok))"

definition handleKeyup :: "keyCodes \<Rightarrow> key_event \<Rightarrow> world \<Rightarrow> world" where
  "handleKeyup kcs ev w = (if keyCode ev = ctrl kcs then w\<lparr>ctrl_down := False\<rparr> else w)"

section \<open>Golden commands\<close>

text \<open>
  The two options of \<open>config.js\<close> that \<open>pickGoldenCommands\<close> reads are parameters.
  Both are counts (a length in code units and a number of commands).
\<close>

record config =
  GOLDEN_CMDS_MAX_LENGTH :: nat
  GOLDEN_CMDS_PER_LANG :: nat

definition startsWith :: "jsstring \<Rightarrow> jsstring \<Rightarrow> bool" where
  "startsWith s prefix = (take (length prefix) s = prefix)"

definition endsWith :: "jsstring \<Rightarrow> jsstring \<Rightarrow> bool" where
  "endsWith s suffix = (length suffix \<le> length s \<and> drop (length s - length suffix) s = suffix)"

definition filterCmds :: "config \<Rightarrow> jsstring list \<Rightarrow> jsstring list" where
  "filterCmds cfg cmds =
     (let filteredCmds = filter (\<lambda>c. length c \<le> GOLDEN_CMDS_MAX_LENGTH cfg) cmds;
          filteredCmds1 = filter (\<lambda>c. \<not> startsWith c (str ''_'')) filteredCmds;
          filteredCmds2 = filter (\<lambda>c. \<not> endsWith c (str '')'')) filteredCmds1
      in filteredCmds2)"

text \<open>
  lodash's \<open>_.sampleSize(array, n)\<close> copies the array, clamps \<open>n\<close> to its length and
  runs the first \<open>n\<close> rounds of a Fisher-Yates shuffle on the copy: round \<open>index\<close>
  swaps the element at \<open>index\<close> with the one at a random position between \<open>index\<close>
  and the last index, and the copy is cut to its first \<open>n\<close> elements at the end.
  \<open>Math.random\<close> is the sequence \<open>rnd\<close> of its draws together with the number of
  draws made so far; a draw \<open>r\<close> stands for the random position \<open>lower + r mod
  (upper - lower + 1)\<close>, which is any position of the interval as \<open>r\<close> varies.
\<close>

type_synonym random = "nat \<Rightarrow> nat"

definition baseRandom :: "nat \<Rightarrow> nat \<Rightarrow> nat \<Rightarrow> nat" where
  "baseRandom r lower upper = lower + r mod (upper - lower + 1)"

function shuffleSelf :: "random \<Rightarrow> nat \<Rightarrow> nat \<Rightarrow> nat \<Rightarrow> 'a list \<Rightarrow> 'a list" where
  "shuffleSelf rnd k size' index array =
     (if index < size' then
        let rand = baseRandom (rnd (k + index)) index (length array - 1);
            val = array ! rand;
            array1 = array[rand := array ! index];
            array2 = array1[index := val]
        in shuffleSelf rnd k size' (index + 1) array2
      else take size' array)"
  by pat_completeness auto
termination
  by (relation "measure (\<lambda>(rnd, k, size', index, array). size' - index)") auto

definition sampleSize :: "'a list \<Rightarrow> nat \<Rightarrow> random \<Rightarrow> nat \<Rightarrow> 'a list \<times> nat" where
  "sampleSize array n rnd k =
     (let size' = min n (length array)
      in (shuffleSelf rnd k size' 0 array, k + size'))"

text \<open>
  \<open>pickGoldenCommands\<close> returns the object \<open>{bash, js, py, html}\<close>, here a function
  of the language, and the number of random draws made.
\<close>

definition pickGoldenCommands ::
  "config \<Rightarrow> cmdsByLang \<Rightarrow> random \<Rightarrow> nat \<Rightarrow> (lang \<Rightarrow> jsstring list) \<times> nat" where
  "pickGoldenCommands cfg cmdsByLang rnd k0 =
     (let bash_cmds = filterCmds cfg (cmdsByLang Bash);
          js_cmds = filterCmds cfg (cmdsByLang Js);
          py_cmds = filterCmds cfg (cmdsByLang Py);
          html_cmds = filterCmds cfg (cmdsByLang Html);
          (bash_sample, k1) = sampleSize bash_cmds (GOLDEN_CMDS_PER_LANG cfg) rnd k0;
          (js_sample, k2) = sampleSize js_cmds (GOLDEN_CMDS_PER_LANG cfg) rnd k1;
          (py_sample, k3) = sampleSize py_cmds (GOLDEN_CMDS_PER_LANG cfg) rnd k2;
          (html_sample, k4) = sampleSize html_cmds (GOLDEN_CMDS_PER_LANG cfg) rnd k3
      in (\<lambda>l. case l of Bash \<Rightarrow> bash_sample | Js \<Rightarrow> js_sample
                        | Py \<Rightarrow> py_sample | Html \<Rightarrow> html_sample,
          k4))"

section \<open>Sessions\<close>

text \<open>
  A session is a sequence of events on the state. Key-down events go to
  \<open>handleKeypress\<close>, key-up events to \<open>handleKeyup\<close>, phase changes to
  \<open>toState\<close>. Two fields that \<open>app.js\<close> reads but never writes are written from
  outside it: \<open>cmd\<close>, the buffer bound to the textarea the player edits, and
  \<open>allowTyping\<close>, the switch that whoever drives the rounds sets.
\<close>

datatype event =
    KeyDown key_event textarea
  | KeyUp key_event
  | ToState phase
  | EditBuffer jsstring
  | SetAllowTyping bool

fun step :: "keyCodes \<Rightarrow> (jsstring \<Rightarrow> find_result) \<Rightarrow> world \<Rightarrow> event \<Rightarrow> world" where
  "step kcs fnd w (KeyDown ev ta) = fst (handleKeypress kcs fnd ev ta w)"
| "step kcs fnd w (KeyUp ev) = handleKeyup kcs ev w"
| "step kcs fnd w (ToState st) = w\<lparr>app := toState st (app w)\<rparr>"
| "step kcs fnd w (EditBuffer s) = w\<lparr>app := (app w)\<lparr>cmd := s\<rparr>\<rparr>"
| "step kcs fnd w (SetAllowTyping b) = w\<lparr>app := (app w)\<lparr>allowTyping := b\<rparr>\<rparr>"

fun run :: "keyCodes \<Rightarrow> (jsstring \<Rightarrow> find_result) \<Rightarrow> world \<Rightarrow> event list \<Rightarrow> world" where
  "run kcs fnd w [] = w"
| "run kcs fnd w (e # es) = run kcs fnd (step kcs fnd w e) es"

fun is_enter :: "keyCodes \<Rightarrow> event \<Rightarrow> bool" where
  "is_enter kcs (KeyDown ev ta) = (keyCode ev = enter kcs)"
| "is_enter kcs _ = False"

text \<open>
  The number of Enter key-downs of a session that arrive while a condition on the state
  holds: the phase is \<open>Play\<close>, or typing is allowed.
\<close>

fun enters_while ::
  "(world \<Rightarrow> bool) \<Rightarrow> keyCodes \<Rightarrow> (jsstring \<Rightarrow> find_result) \<Rightarrow> world \<Rightarrow> event list \<Rightarrow> nat" where
  "enters_while c kcs fnd w [] = 0"
| "enters_while c kcs fnd w (e # es) =
     (if is_enter kcs e \<and> c w then 1 else 0) + enters_while c kcs fnd (step kcs fnd w e) es"

definition in_play :: "world \<Rightarrow> bool" where
  "in_play w = (state (app w) = Play)"

definition typing_allowed :: "world \<Rightarrow> bool" where
  "typing_allowed w = allowTyping (app w)"

section \<open>Notions of the specification\<close>

text \<open>The closed range \<open>[start, end]\<close> of a table entry.\<close>

definition in_closed_range :: "int \<Rightarrow> key_range \<Rightarrow> bool" where
  "in_closed_range kc r = (range_start r \<le> kc \<and> kc \<le> range_end r)"

text \<open>
  The codes the filter is said to accept: a code of one of the three ranges, Enter or
  right arrow, or left arrow or backspace when the character left of the cursor is not a
  newline.
\<close>

definition accepted_code :: "keyCodes \<Rightarrow> int \<Rightarrow> jschar option \<Rightarrow> bool" where
  "accepted_code kcs kc leftChar =
     (in_closed_range kc (nums kcs) \<or> in_closed_range kc (alpha kcs) \<or>
      in_closed_range kc (punct kcs) \<or>
      kc = enter kcs \<or> kc = right_arrow kcs \<or>
      ((kc = left_arrow kcs \<or> kc = backspace kcs) \<and> leftChar \<noteq> Some newline))"

text \<open>
  What is assumed of the key code table: each range has its start at or below its end,
  and the control code is none of the codes that are accepted.
\<close>

definition wf_keyCodes :: "keyCodes \<Rightarrow> bool" where
  "wf_keyCodes kcs =
     (range_start (nums kcs) \<le> range_end (nums kcs) \<and>
      range_start (alpha kcs) \<le> range_end (alpha kcs) \<and>
      range_start (punct kcs) \<le> range_end (punct kcs) \<and>
      \<not> in_closed_range (ctrl kcs) (nums kcs) \<and>
      \<not> in_closed_range (ctrl kcs) (alpha kcs) \<and>
      \<not> in_closed_range (ctrl kcs) (punct kcs) \<and>
      ctrl kcs \<notin> set [enter kcs, right_arrow kcs, left_arrow kcs, backspace kcs])"

text \<open>
  The conditions on a golden command, on the string itself: its first code unit is an
  underscore, its last one a closing parenthesis. A command is eligible when it is at
  most the configured length and neither holds.
\<close>

definition starts_with_underscore :: "jsstring \<Rightarrow> bool" where
  "starts_with_underscore c = (case c of [] \<Rightarrow> False | x # _ \<Rightarrow> x = 0x5F)"

definition ends_with_paren :: "jsstring \<Rightarrow> bool" where
  "ends_with_paren c = (c \<noteq> [] \<and> last c = 0x29)"

definition eligible :: "config \<Rightarrow> jsstring list \<Rightarrow> jsstring list" where
  "eligible cfg cmds =
     filter (\<lambda>c. length c \<le> GOLDEN_CMDS_MAX_LENGTH cfg \<and> \<not> starts_with_underscore c \<and>
                 \<not> ends_with_paren c) cmds"

text \<open>The count of a language, \<open>count[lang]\<close>.\<close>

definition lang_count :: "counters \<Rightarrow> lang \<Rightarrow> int" where
  "lang_count c l = (case l of Js \<Rightarrow> js c | Bash \<Rightarrow> bash c | Html \<Rightarrow> html c | Py \<Rightarrow> py c)"

text \<open>No per-language count and no score is lower in \<open>b\<close> than in \<open>a\<close>.\<close>

definition scores_le :: "app_data \<Rightarrow> app_data \<Rightarrow> bool" where
  "scores_le a b =
     (js (count a) \<le> js (count b) \<and> bash (count a) \<le> bash (count b) \<and>
      html (count a) \<le> html (count b) \<and> py (count a) \<le> py (count b) \<and>
      score a \<le> score b)"

section \<open>Concrete inputs\<close>

text \<open>
  A concrete table for the examples: the key codes that browsers report for Enter,
  Control, Backspace, the arrows, the digits, the letters and the punctuation keys.
\<close>

definition sample_keyCodes :: keyCodes where
  "sample_keyCodes =
     \<lparr>enter = 13, ctrl = 17, backspace = 8, left_arrow = 37, right_arrow = 39,
      nums = \<lparr>range_start = 48, range_end = 57\<rparr>,
      alpha = \<lparr>range_start = 65, range_end = 90\<rparr>,
      punct = \<lparr>range_start = 186, range_end = 222\<rparr>\<rparr>"

text \<open>A small dictionary, a configuration and a sequence of random draws.\<close>

definition sample_dict :: cmdsByLang where
  "sample_dict l =
     (case l of Bash \<Rightarrow> [str ''ls'', str ''log'', str ''cd'']
              | Js \<Rightarrow> [str ''log'', str ''alert()'', str ''_id'']
              | Py \<Rightarrow> [str ''print'', str ''__init__'']
              | Html \<Rightarrow> [str ''div'', str ''blockquote''])"

definition sample_config :: config where
  "sample_config = \<lparr>GOLDEN_CMDS_MAX_LENGTH = 10, GOLDEN_CMDS_PER_LANG = 2\<rparr>"

definition sample_random :: random where
  "sample_random i = 7 * i + 2"

text \<open>A command matcher that knows the one bash command \<open>ls\<close>.\<close>

definition ls_matcher :: "jsstring \<Rightarrow> find_result" where
  "ls_matcher line0 =
     (if line0 = str ''ls'' then \<lparr>found_cmd = Some line0, found_lang = [Bash]\<rparr>
      else \<lparr>found_cmd = None, found_lang = []\<rparr>)"

text \<open>
  Two buffers whose last line is \<open>console.log\<close> and \<open>log\<close>, each with white space
  around it.
\<close>

definition console_log_buffer :: app_data where
  "console_log_buffer = initial_data\<lparr>cmd := str ''ls'' @ [newline] @ str '' console.log  ''\<rparr>"

definition log_buffer :: app_data where
  "log_buffer = initial_data\<lparr>cmd := str ''ls'' @ [newline] @ str '' log ''\<rparr>"

text \<open>The initial data moved to a phase, and a title screen that shows an earlier round.\<close>

definition at_phase :: "phase \<Rightarrow> app_data" where
  "at_phase p = initial_data\<lparr>state := p\<rparr>"

definition title_with_score :: app_data where
  "title_with_score =
     initial_data\<lparr>state := Title, timer := 30, score := 1200,
       count := (count initial_data)\<lparr>bash := 1, totalValidCommands := 1\<rparr>\<rparr>"

text \<open>
  A session in which typing is switched on at the title screen and the player enters
  \<open>ls\<close>, and a state in the play phase with the control key held.
\<close>

definition typing_at_title :: "event list" where
  "typing_at_title =
     [ToState Title, SetAllowTyping True, EditBuffer (str ''ls''),
      KeyDown \<lparr>keyCode = 13\<rparr> \<lparr>selectionStart = 2\<rparr>]"

definition typing_with_ctrl_held :: world where
  "typing_with_ctrl_held =
     \<lparr>app = initial_data\<lparr>state := Play, allowTyping := True,
        cmd := str ''cd'' @ [newline] @ str ''ls''\<rparr>,
      ctrl_down = True\<rparr>"

text \<open>
  A handler for phase changes that starts a round on the change from title to play: it
  allows typing and zeroes the score, the counters and the timer.
\<close>

definition start_round :: "change \<Rightarrow> app_data \<Rightarrow> app_data" where
  "start_round ch a =
     (if change_from ch = Title \<and> change_to ch = Play
      then a\<lparr>allowTyping := True, score := 0, timer := 0, count := count initial_data\<rparr>
      else a)"

text \<open>
  The control key goes down and is kept down, in two orders: before typing is switched
  on, and after.
\<close>

definition ctrl_pressed_before_typing :: world where
  "ctrl_pressed_before_typing =
     run sample_keyCodes ls_matcher initial_world
       [KeyDown \<lparr>keyCode = 17\<rparr> \<lparr>selectionStart = 0\<rparr>, SetAllowTyping True]"

definition ctrl_pressed_while_typing :: world where
  "ctrl_pressed_while_typing =
     run sample_keyCodes ls_matcher initial_world
       [SetAllowTyping True, KeyDown \<lparr>keyCode = 17\<rparr> \<lparr>selectionStart = 0\<rparr>]"

section \<open>The keystroke filter\<close>

lemma inRange_closed:
  "range_start r \<le> range_end r \<Longrightarrow>
     inRange kc (range_start r) (range_end r + 1) = in_closed_range kc r"
  by (auto simp: inRange_def in_closed_range_def)

text \<open>
  C1. While the control flag is not held, \<open>validKeycode\<close> accepts a key event exactly
  when its code lies in one of the three closed ranges, or is Enter or right arrow, or is
  left arrow or backspace and the character left of the cursor is not a newline; every
  other code is rejected. The key code table is a parameter: its ranges are taken to be
  non-empty and the control code to be none of the accepted codes.
\<close>

theorem validKeycode_accepts_iff:
  assumes "wf_keyCodes kcs" and "\<not> flag"
  shows "fst (validKeycode kcs ev leftChar flag) = accepted_code kcs (keyCode ev) leftChar"
proof (cases "keyCode ev = ctrl kcs")
  case True
  with assms(1) have "\<not> accepted_code kcs (keyCode ev) leftChar"
    by (auto simp: wf_keyCodes_def accepted_code_def)
  moreover from True have "fst (validKeycode kcs ev leftChar flag) = False"
    by (simp add: validKeycode_def)
  ultimately show ?thesis by simp
next
  case False
  with assms show ?thesis
    by (auto simp: validKeycode_def Let_def wf_keyCodes_def accepted_code_def inRange_closed)
qed

theorem validKeycode_accepts_iff_witness:
  "wf_keyCodes sample_keyCodes \<and>
   fst (validKeycode sample_keyCodes \<lparr>keyCode = 65\<rparr> None False) = True \<and>
   accepted_code sample_keyCodes 8 (Some 97) \<and>
   \<not> accepted_code sample_keyCodes 8 (Some newline) \<and>
   \<not> accepted_code sample_keyCodes 112 None"
proof -
  have wf: "wf_keyCodes sample_keyCodes"
    by (simp add: wf_keyCodes_def sample_keyCodes_def in_closed_range_def)
  have "fst (validKeycode sample_keyCodes \<lparr>keyCode = 65\<rparr> None False) =
        accepted_code sample_keyCodes (keyCode \<lparr>keyCode = 65\<rparr>) None"
    using validKeycode_accepts_iff [OF wf, of False] by simp
  then show ?thesis using wf
    by (simp add: accepted_code_def sample_keyCodes_def in_closed_range_def newline_def)
qed

text \<open>
  C2. While the control flag is set, \<open>validKeycode\<close> returns false for every key code
  and leaves the flag set. The flag is set by the filter on a key-down of the control
  code (which is itself rejected) and cleared by \<open>handleKeyup\<close> on its key-up.
\<close>

theorem validKeycode_rejects_while_ctrl_held:
  "(flag \<longrightarrow> validKeycode kcs ev leftChar flag = (False, True)) \<and>
   (keyCode ev = ctrl kcs \<longrightarrow> validKeycode kcs ev leftChar flag = (False, True)) \<and>
   (keyCode ev = ctrl kcs \<longrightarrow> ctrl_down (handleKeyup kcs ev w) = False)"
  by (simp add: validKeycode_def handleKeyup_def)

theorem validKeycode_rejects_while_ctrl_held_witness:
  "validKeycode sample_keyCodes \<lparr>keyCode = 65\<rparr> None True = (False, True) \<and>
   validKeycode sample_keyCodes \<lparr>keyCode = 65\<rparr> None False = (True, False) \<and>
   validKeycode sample_keyCodes \<lparr>keyCode = 17\<rparr> None False = (False, True) \<and>
   ctrl_down (handleKeyup sample_keyCodes \<lparr>keyCode = 17\<rparr>
                \<lparr>app = initial_data, ctrl_down = True\<rparr>) = False"
proof -
  have a: "validKeycode sample_keyCodes \<lparr>keyCode = 65\<rparr> None False = (True, False)"
    by (simp add: validKeycode_def sample_keyCodes_def inRange_def)
  have b: "keyCode \<lparr>keyCode = 17\<rparr> = ctrl sample_keyCodes"
    by (simp add: sample_keyCodes_def)
  show ?thesis
    using a b
      validKeycode_rejects_while_ctrl_held
        [of True sample_keyCodes "\<lparr>keyCode = 65\<rparr>" None
            "\<lparr>app = initial_data, ctrl_down = True\<rparr>"]
      validKeycode_rejects_while_ctrl_held
        [of False sample_keyCodes "\<lparr>keyCode = 17\<rparr>" None
            "\<lparr>app = initial_data, ctrl_down = True\<rparr>"]
    by simp
qed

section \<open>The command line and its match\<close>

lemma split_from_not_Nil: "split_from sep cur s \<noteq> []"
  by (induction s arbitrary: cur) auto

lemma split_str_not_Nil: "split_str s sep \<noteq> []"
  by (simp add: split_str_def split_from_not_Nil)

lemma takeWhile_not_sep:
  "sep \<notin> set xs \<Longrightarrow> takeWhile (\<lambda>c. c \<noteq> sep) (xs @ sep # ys) = xs"
  by (induction xs) auto

lemma takeWhile_past_sep:
  "sep \<in> set xs \<Longrightarrow> takeWhile (\<lambda>c. c \<noteq> sep) (xs @ ys) = takeWhile (\<lambda>c. c \<noteq> sep) xs"
  by (induction xs) auto

lemma takeWhile_no_sep:
  "sep \<notin> set xs \<Longrightarrow> takeWhile (\<lambda>c. c \<noteq> sep) xs = xs"
  by (induction xs) auto

text \<open>
  The last segment of a split is what follows the last separator; with no separator it
  is the segment collected so far followed by the whole rest.
\<close>

lemma last_split_from:
  "last (split_from sep cur s) =
     (if sep \<in> set s then rev (takeWhile (\<lambda>c. c \<noteq> sep) (rev s)) else cur @ s)"
proof (induction s arbitrary: cur)
  case Nil
  show ?case by simp
next
  case (Cons c cs)
  show ?case
  proof (cases "c = sep")
    case True
    show ?thesis
    proof (cases "sep \<in> set cs")
      case True
      with \<open>c = sep\<close> show ?thesis
        by (simp add: Cons.IH split_from_not_Nil takeWhile_past_sep)
    next
      case False
      then have "takeWhile (\<lambda>c. c \<noteq> sep) (rev cs @ sep # []) = rev cs"
        by (intro takeWhile_not_sep) simp
      with False \<open>c = sep\<close> show ?thesis
        by (simp add: Cons.IH split_from_not_Nil)
    qed
  next
    case False
    then show ?thesis
      by (simp add: Cons.IH takeWhile_past_sep)
  qed
qed

lemma last_split_str: "last (split_str s newline) = after_last_newline s"
  by (simp add: split_str_def last_split_from after_last_newline_def takeWhile_no_sep)

lemma testCmd_line: "result_cmd (testCmd fnd a) = spec_trailing_line (cmd a)"
  by (simp add: testCmd_def Let_def last_split_str spec_trailing_line_def)

lemma all_langs: "set [Bash, Js, Py, Html] = UNIV"
proof -
  have "l \<in> set [Bash, Js, Py, Html]" for l
    by (cases l) simp_all
  then show ?thesis by blast
qed

lemma langs_with: "set (filter P [Bash, Js, Py, Html]) = {l. P l}"
  by (simp only: set_filter all_langs) simp

lemma found_lang_find_cmd:
  "set (found_lang (find_cmd dict line)) = {l. line \<noteq> [] \<and> line \<in> set (dict l)}"
proof (cases "line = []")
  case True
  then show ?thesis by (simp add: find_cmd_def)
next
  case False
  then have "found_lang (find_cmd dict line) =
             filter (\<lambda>l. line \<in> set (dict l)) [Bash, Js, Py, Html]"
    by (simp add: find_cmd_def Let_def)
  with False show ?thesis
    by (simp only: langs_with) simp
qed

lemma truthy_find_cmd:
  "truthy (found_cmd (find_cmd dict line)) = (line \<noteq> [] \<and> (\<exists>l. line \<in> set (dict l)))"
proof -
  have "(filter (\<lambda>l. line \<in> set (dict l)) [Bash, Js, Py, Html] = []) =
        ({l. line \<in> set (dict l)} = {})"
    by (simp only: langs_with [symmetric] set_empty)
  then show ?thesis
    by (auto simp: find_cmd_def Let_def truthy_def simp del: filter.simps)
qed

text \<open>
  C3. The line \<open>testCmd\<close> hands to the command matcher, and reports as \<open>cmd\<close>, is
  the part of the buffer after its last newline with leading and trailing white space
  stripped; what the matcher says of that one line decides the result. With the matcher
  of the specification the result is valid exactly when that whole line is equal to a
  command of some language, and the languages reported are those that have it: a line
  \<open>console.log\<close> does not match because \<open>log\<close> is a command.
\<close>

theorem testCmd_exact_match:
  "result_cmd (testCmd fnd a) = spec_trailing_line (cmd a) \<and>
   matchedCmd (testCmd fnd a) = found_cmd (fnd (spec_trailing_line (cmd a))) \<and>
   result_lang (testCmd fnd a) = found_lang (fnd (spec_trailing_line (cmd a))) \<and>
   valid (testCmd (find_cmd dict) a) =
     (spec_trailing_line (cmd a) \<noteq> [] \<and> (\<exists>l. spec_trailing_line (cmd a) \<in> set (dict l))) \<and>
   set (result_lang (testCmd (find_cmd dict) a)) =
     {l. spec_trailing_line (cmd a) \<noteq> [] \<and> spec_trailing_line (cmd a) \<in> set (dict l)}"
  by (simp add: testCmd_def Let_def last_split_str spec_trailing_line_def
      truthy_find_cmd found_lang_find_cmd)

theorem testCmd_exact_match_witness:
  "result_cmd (testCmd (find_cmd sample_dict) console_log_buffer) = str ''console.log'' \<and>
   str ''log'' \<in> set (sample_dict Js) \<and>
   valid (testCmd (find_cmd sample_dict) console_log_buffer) = False \<and>
   result_cmd (testCmd (find_cmd sample_dict) log_buffer) = str ''log'' \<and>
   valid (testCmd (find_cmd sample_dict) log_buffer) = True \<and>
   set (result_lang (testCmd (find_cmd sample_dict) log_buffer)) = {Bash, Js}"
proof -
  have l1: "spec_trailing_line (cmd console_log_buffer) = str ''console.log''"
    by code_simp
  have l2: "spec_trailing_line (cmd log_buffer) = str ''log''"
    by code_simp
  have n1: "str ''console.log'' \<notin> set (sample_dict l)" for l
    by (cases l) (simp_all add: sample_dict_def str_def)
  have n2: "(str ''log'' \<in> set (sample_dict l)) = (l = Bash \<or> l = Js)" for l
    by (cases l) (simp_all add: sample_dict_def str_def)
  have n3: "str ''log'' \<noteq> []"
    by (simp add: str_def)
  have a: "result_cmd (testCmd (find_cmd sample_dict) console_log_buffer) = str ''console.log'' \<and>
           valid (testCmd (find_cmd sample_dict) console_log_buffer) = False"
    using testCmd_exact_match [of "find_cmd sample_dict" console_log_buffer sample_dict]
    unfolding l1 using n1 by blast
  have b: "result_cmd (testCmd (find_cmd sample_dict) log_buffer) = str ''log'' \<and>
           valid (testCmd (find_cmd sample_dict) log_buffer) = True \<and>
           set (result_lang (testCmd (find_cmd sample_dict) log_buffer)) = {Bash, Js}"
    using testCmd_exact_match [of "find_cmd sample_dict" log_buffer sample_dict]
    unfolding l2 n2 using n3 by blast
  from a b n2 [of Js] show ?thesis by blast
qed

section \<open>The golden command sample\<close>

lemma startsWith_underscore: "startsWith c (str ''_'') = starts_with_underscore c"
  by (cases c) (auto simp: startsWith_def starts_with_underscore_def str_def)

lemma endsWith_paren: "endsWith c (str '')'') = ends_with_paren c"
proof (cases c rule: rev_cases)
  case Nil
  then show ?thesis by (simp add: endsWith_def ends_with_paren_def str_def)
next
  case (snoc ys y)
  then show ?thesis by (auto simp: endsWith_def ends_with_paren_def str_def)
qed

lemma filterCmds_eligible: "filterCmds cfg cmds = eligible cfg cmds"
  by (simp add: filterCmds_def eligible_def Let_def startsWith_underscore endsWith_paren
      conj_commute conj_left_commute cong: conj_cong)

lemma baseRandom_less:
  assumes "index < n"
  shows "baseRandom r index (n - 1) < n"
proof -
  have "r mod (n - 1 - index + 1) < n - 1 - index + 1" by simp
  with assms show ?thesis
    unfolding baseRandom_def by linarith
qed

text \<open>
  Every round of the shuffle swaps two positions of the array, so the array stays a
  permutation of the original one; the result is a prefix of that permutation.
\<close>

lemma shuffleSelf_take:
  "size' \<le> length array \<Longrightarrow>
     \<exists>ys. mset ys = mset array \<and> shuffleSelf rnd k size' index array = take size' ys"
proof (induction rnd k size' index array rule: shuffleSelf.induct)
  case (1 rnd k size' index array)
  show ?case
  proof (cases "index < size'")
    case False
    then have "shuffleSelf rnd k size' index array = take size' array"
      by (simp add: shuffleSelf.simps [of rnd k size' index array])
    then show ?thesis by blast
  next
    case True
    define rand where "rand = baseRandom (rnd (k + index)) index (length array - 1)"
    define array2 where "array2 = array[rand := array ! index, index := array ! rand]"
    from True "1.prems" have lt: "index < length array"
      by simp
    then have rlt: "rand < length array"
      unfolding rand_def by (rule baseRandom_less)
    have m: "mset array2 = mset array"
      unfolding array2_def using lt rlt by (rule mset_swap)
    have len: "size' \<le> length array2"
      using "1.prems" by (simp add: array2_def)
    have "\<exists>ys. mset ys = mset array2 \<and>
            shuffleSelf rnd k size' (index + 1) array2 = take size' ys"
      using "1.IH" [OF True refl refl refl refl] len
      by (simp add: array2_def rand_def)
    moreover have "shuffleSelf rnd k size' index array =
                   shuffleSelf rnd k size' (index + 1) array2"
      using True
      by (simp add: shuffleSelf.simps [of rnd k size' index array] Let_def rand_def array2_def)
    ultimately show ?thesis using m by auto
  qed
qed

lemma sampleSize_take:
  "\<exists>ys. mset ys = mset array \<and> fst (sampleSize array n rnd k) = take (min n (length array)) ys"
  using shuffleSelf_take [of "min n (length array)" array rnd k 0]
  by (simp add: sampleSize_def Let_def)

lemma pickGoldenCommands_lang:
  "\<exists>k'. fst (pickGoldenCommands cfg dict rnd k) l =
          fst (sampleSize (filterCmds cfg (dict l)) (GOLDEN_CMDS_PER_LANG cfg) rnd k')"
  by (cases l) (auto simp: pickGoldenCommands_def Let_def case_prod_beta)

lemma mset_take_subseteq: "mset (take n ys) \<subseteq># mset ys"
proof -
  have "mset (take n ys) + mset (drop n ys) = mset ys"
    by (simp flip: mset_append)
  then show ?thesis
    by (metis mset_subset_eq_add_left)
qed

text \<open>
  C8. For every dictionary, configuration and run of the random generator, the sample
  \<open>pickGoldenCommands\<close> returns for a language is drawn without repetition from the
  eligible commands of that language: every command in it is a command of the
  language of length at most the configured maximum that does not start with an
  underscore and does not end with a closing parenthesis. The sample has at most the
  configured number of commands, exactly the smaller of that number and the number of
  eligible commands, and when no more than that number are eligible all of them are
  returned.
\<close>

theorem pickGoldenCommands_sample:
  "mset (fst (pickGoldenCommands cfg dict rnd k) l) \<subseteq># mset (eligible cfg (dict l)) \<and>
   (\<forall>c \<in> set (fst (pickGoldenCommands cfg dict rnd k) l).
      c \<in> set (dict l) \<and> length c \<le> GOLDEN_CMDS_MAX_LENGTH cfg \<and>
      \<not> starts_with_underscore c \<and> \<not> ends_with_paren c) \<and>
   length (fst (pickGoldenCommands cfg dict rnd k) l) \<le> GOLDEN_CMDS_PER_LANG cfg \<and>
   length (fst (pickGoldenCommands cfg dict rnd k) l) =
     min (GOLDEN_CMDS_PER_LANG cfg) (length (eligible cfg (dict l))) \<and>
   (length (eligible cfg (dict l)) \<le> GOLDEN_CMDS_PER_LANG cfg \<longrightarrow>
      mset (fst (pickGoldenCommands cfg dict rnd k) l) = mset (eligible cfg (dict l)))"
proof -
  let ?g = "fst (pickGoldenCommands cfg dict rnd k) l"
  let ?e = "eligible cfg (dict l)"
  let ?n = "GOLDEN_CMDS_PER_LANG cfg"
  obtain k' where "?g = fst (sampleSize ?e ?n rnd k')"
    using pickGoldenCommands_lang [of cfg dict rnd k l] by (auto simp: filterCmds_eligible)
  with sampleSize_take [of ?e ?n rnd k']
  obtain ys where ys: "mset ys = mset ?e" and g: "?g = take (min ?n (length ?e)) ys"
    by auto
  from ys have leq: "length ys = length ?e"
    by (metis size_mset)
  have sub: "mset ?g \<subseteq># mset ?e"
    unfolding g ys [symmetric] by (rule mset_take_subseteq)
  then have "set ?g \<subseteq> set ?e"
    by (metis set_mset_mono set_mset_mset)
  then have elems: "\<forall>c \<in> set ?g. c \<in> set (dict l) \<and> length c \<le> GOLDEN_CMDS_MAX_LENGTH cfg \<and>
      \<not> starts_with_underscore c \<and> \<not> ends_with_paren c"
    by (auto simp: eligible_def)
  have len: "length ?g = min ?n (length ?e)"
    unfolding g using leq by simp
  have all: "length ?e \<le> ?n \<longrightarrow> mset ?g = mset ?e"
    unfolding g using leq ys by simp
  from sub elems len all show ?thesis by simp
qed

theorem pickGoldenCommands_sample_witness:
  "fst (pickGoldenCommands sample_config sample_dict sample_random 0) Bash =
     [str ''cd'', str ''ls''] \<and>
   eligible sample_config (sample_dict Bash) = [str ''ls'', str ''log'', str ''cd''] \<and>
   str ''cd'' \<in> set (sample_dict Bash) \<and>
   length (str ''cd'') \<le> GOLDEN_CMDS_MAX_LENGTH sample_config \<and>
   \<not> starts_with_underscore (str ''cd'') \<and> \<not> ends_with_paren (str ''cd'') \<and>
   sample_dict Js = [str ''log'', str ''alert()'', str ''_id''] \<and>
   length (eligible sample_config (sample_dict Js)) \<le> GOLDEN_CMDS_PER_LANG sample_config \<and>
   mset (fst (pickGoldenCommands sample_config sample_dict sample_random 0) Js) =
     mset [str ''log'']"
proof -
  have g: "fst (pickGoldenCommands sample_config sample_dict sample_random 0) Bash =
           [str ''cd'', str ''ls'']"
    by code_simp
  have e: "eligible sample_config (sample_dict Bash) = [str ''ls'', str ''log'', str ''cd'']"
    by code_simp
  have ej: "eligible sample_config (sample_dict Js) = [str ''log'']"
    by code_simp
  have n: "GOLDEN_CMDS_PER_LANG sample_config = 2"
    by (simp add: sample_config_def)
  have d: "sample_dict Js = [str ''log'', str ''alert()'', str ''_id'']"
    by (simp add: sample_dict_def)
  have bash: "\<forall>c \<in> set [str ''cd'', str ''ls''].
      c \<in> set (sample_dict Bash) \<and> length c \<le> GOLDEN_CMDS_MAX_LENGTH sample_config \<and>
      \<not> starts_with_underscore c \<and> \<not> ends_with_paren c"
    using pickGoldenCommands_sample [of sample_config sample_dict sample_random 0 Bash]
    unfolding g by blast
  have js: "length (eligible sample_config (sample_dict Js)) \<le> GOLDEN_CMDS_PER_LANG sample_config \<and>
      mset (fst (pickGoldenCommands sample_config sample_dict sample_random 0) Js) =
      mset [str ''log'']"
    using pickGoldenCommands_sample [of sample_config sample_dict sample_random 0 Js]
    unfolding ej n by simp
  from bash have cd: "str ''cd'' \<in> set (sample_dict Bash) \<and>
      length (str ''cd'') \<le> GOLDEN_CMDS_MAX_LENGTH sample_config \<and>
      \<not> starts_with_underscore (str ''cd'') \<and> \<not> ends_with_paren (str ''cd'')"
    by simp
  from g e d cd js show ?thesis by blast
qed

section \<open>Scores and counters\<close>

lemma foldl_incr_count_totals:
  "totalValidCommands (foldl incr_count c ls) = totalValidCommands c \<and>
   totalValidCharacters (foldl incr_count c ls) = totalValidCharacters c"
proof (induction ls arbitrary: c)
  case Nil
  show ?case by simp
next
  case (Cons l ls)
  show ?case by (cases l) (simp_all add: Cons.IH)
qed

lemma foldl_incr_count_mono:
  "js c \<le> js (foldl incr_count c ls) \<and> bash c \<le> bash (foldl incr_count c ls) \<and>
   html c \<le> html (foldl incr_count c ls) \<and> py c \<le> py (foldl incr_count c ls)"
proof (induction ls arbitrary: c)
  case Nil
  show ?case by simp
next
  case (Cons l ls)
  have "js c \<le> js (incr_count c l) \<and> bash c \<le> bash (incr_count c l) \<and>
        html c \<le> html (incr_count c l) \<and> py c \<le> py (incr_count c l)"
    by (cases l) simp_all
  with Cons.IH [of "incr_count c l"] show ?case
    by (simp del: incr_count.simps)
qed

lemma apply_result_scores_le: "scores_le a (apply_result r a)"
  using foldl_incr_count_mono [of "count a" "result_lang r"]
  by (simp add: apply_result_def scores_le_def Let_def)

lemma apply_result_total:
  "totalValidCommands (count (apply_result r a)) =
     totalValidCommands (count a) + (if valid r then 1 else 0)"
  by (simp add: apply_result_def Let_def foldl_incr_count_totals)

lemma apply_result_score:
  "score (apply_result r a) =
     score a + (if valid r then (10 + int (length (result_cmd r))) * 100 else 0)"
  by (simp add: apply_result_def Let_def)

lemma scores_le_refl: "scores_le a a"
  by (simp add: scores_le_def)

lemma scores_le_trans: "scores_le a b \<Longrightarrow> scores_le b c \<Longrightarrow> scores_le a c"
  by (auto simp: scores_le_def)

lemma handleKeypress_scores_le:
  "scores_le (app w) (app (fst (handleKeypress kcs fnd ev ta w)))"
  by (simp add: handleKeypress_def onKeyPress_def Let_def case_prod_beta
      apply_result_scores_le scores_le_refl)

lemma toState_fields:
  "toState st a = a\<lparr>state := st, titleState := Some (st = Title)\<rparr>"
  by (simp add: toState_def toState_with_def onStateChange_def)

lemma step_scores_le: "scores_le (app w) (app (step kcs fnd w e))"
proof (cases e)
  case (KeyDown ev ta)
  then show ?thesis by (simp add: handleKeypress_scores_le)
next
  case (KeyUp ev)
  then show ?thesis by (simp add: handleKeyup_def scores_le_refl)
next
  case (ToState st)
  then show ?thesis by (simp add: toState_fields scores_le_def)
next
  case (EditBuffer s)
  then show ?thesis by (simp add: scores_le_def)
next
  case (SetAllowTyping b)
  then show ?thesis by (simp add: scores_le_def)
qed

lemma run_scores_le: "scores_le (app w) (app (run kcs fnd w es))"
proof (induction es arbitrary: w)
  case Nil
  show ?case by (simp add: scores_le_refl)
next
  case (Cons e es)
  from step_scores_le Cons.IH show ?case
    by (simp del: step.simps) (rule scores_le_trans)
qed

lemma step_total:
  "totalValidCommands (count (app (step kcs fnd w e))) =
     totalValidCommands (count (app w)) +
     (if is_enter kcs e \<and> typing_allowed w \<and> valid (testCmd fnd (app w)) then 1 else 0)"
proof (cases e)
  case (KeyDown ev ta)
  then show ?thesis
    by (simp add: handleKeypress_def onKeyPress_def Let_def case_prod_beta
        apply_result_total typing_allowed_def)
next
  case (KeyUp ev)
  then show ?thesis by (simp add: handleKeyup_def)
next
  case (ToState st)
  then show ?thesis by (simp add: toState_fields)
next
  case (EditBuffer s)
  then show ?thesis by simp
next
  case (SetAllowTyping b)
  then show ?thesis by simp
qed

text \<open>
  The bound of C4 as it is stated fails: \<open>handleKeypress\<close> tests \<open>allowTyping\<close> and
  never the phase. In the session \<open>typing_at_title\<close> the valid command \<open>ls\<close> is
  entered at the title screen; \<open>totalValidCommands\<close> becomes 1 although no Enter arrived
  while the phase was \<open>Play\<close>.
\<close>

theorem totalValidCommands_outside_play:
  "\<not> totalValidCommands (count (app (run sample_keyCodes ls_matcher
         initial_world typing_at_title)))
      \<le> int (enters_while in_play sample_keyCodes ls_matcher
         initial_world typing_at_title)"
  by code_simp

text \<open>
  C4, as the code has it. In every session, from any state and with any command
  matcher, \<open>totalValidCommands\<close> grows by one on an Enter key-down that arrives while
  \<open>allowTyping\<close> is set and whose line is valid, and is unchanged by every other
  event; after the session it is at most its value before plus the number of Enter
  key-downs that arrived while \<open>allowTyping\<close> was set.
\<close>

theorem totalValidCommands_bound:
  "totalValidCommands (count (app (step kcs fnd w e))) =
     totalValidCommands (count (app w)) +
     (if is_enter kcs e \<and> typing_allowed w \<and> valid (testCmd fnd (app w)) then 1 else 0) \<and>
   totalValidCommands (count (app (run kcs fnd w es))) \<le>
     totalValidCommands (count (app w)) + int (enters_while typing_allowed kcs fnd w es)"
proof -
  have "totalValidCommands (count (app (run kcs fnd w es))) \<le>
     totalValidCommands (count (app w)) + int (enters_while typing_allowed kcs fnd w es)"
  proof (induction es arbitrary: w)
    case Nil
    show ?case by simp
  next
    case (Cons e es)
    from step_total [of kcs fnd w e] Cons.IH [of "step kcs fnd w e"] show ?case
      by (simp del: step.simps split: if_splits)
  qed
  with step_total show ?thesis by blast
qed

theorem totalValidCommands_bound_witness:
  "totalValidCommands (count (app initial_world)) = 0 \<and>
   enters_while typing_allowed sample_keyCodes ls_matcher
     initial_world typing_at_title = 1 \<and>
   totalValidCommands (count (app (run sample_keyCodes ls_matcher
     initial_world typing_at_title))) \<le> 1"
proof -
  have z: "totalValidCommands (count (app initial_world)) = 0"
    by (simp add: initial_world_def initial_data_def)
  have n: "enters_while typing_allowed sample_keyCodes ls_matcher
             initial_world typing_at_title = 1"
    by code_simp
  from totalValidCommands_bound
    [of sample_keyCodes ls_matcher initial_world
        "ToState Title" typing_at_title]
  have "totalValidCommands (count (app (run sample_keyCodes ls_matcher
          initial_world typing_at_title))) \<le> 1"
    unfolding z n by simp
  with z n show ?thesis by blast
qed

text \<open>
  C5. No per-language count and no score ever decreases: not on a key-down, not on a
  key-up, not on a phase change, and so not over any session, from any state and with
  any command matcher.
\<close>

theorem scores_never_decrease:
  "scores_le (app w) (app (fst (handleKeypress kcs fnd ev ta w))) \<and>
   scores_le (app w) (app (handleKeyup kcs ev w)) \<and>
   scores_le a (toState st a) \<and>
   scores_le (app w) (app (run kcs fnd w es))"
  by (simp add: handleKeypress_scores_le run_scores_le handleKeyup_def scores_le_refl
      toState_fields scores_le_def [of a])

theorem scores_never_decrease_witness:
  "score (app initial_world) = 0 \<and>
   score (app (run sample_keyCodes ls_matcher initial_world typing_at_title)) = 1200 \<and>
   scores_le (app initial_world)
     (app (run sample_keyCodes ls_matcher initial_world typing_at_title))"
proof -
  have a: "score (app initial_world) = 0"
    by (simp add: initial_world_def initial_data_def)
  have b: "score (app (run sample_keyCodes ls_matcher
             initial_world typing_at_title)) = 1200"
    by code_simp
  from a b scores_never_decrease
    [of initial_world sample_keyCodes ls_matcher "\<lparr>keyCode = 13\<rparr>"
        "\<lparr>selectionStart = 2\<rparr>" initial_data Title typing_at_title]
  show ?thesis by blast
qed

section \<open>Phase changes\<close>

text \<open>
  No restriction on phase changes is in \<open>toState\<close>: from the title it moves to the end
  phase or back to loading as readily as to play, from play back to the title, and from
  the end phase to the end phase.
\<close>

theorem toState_unrestricted:
  "state (at_phase Title) = Title \<and> state (toState End (at_phase Title)) = End \<and>
   state (toState Loading (at_phase Title)) = Loading \<and>
   state (at_phase Play) = Play \<and> state (toState Title (at_phase Play)) = Title \<and>
   state (at_phase End) = End \<and> state (toState End (at_phase End)) = End"
  by (simp add: toState_def toState_with_def onStateChange_def at_phase_def)

text \<open>
  C6, as the code has it. \<open>toState\<close> moves to the phase it is given, whatever the
  current phase is, and it is the only one of the events that changes the phase; the
  order loading, title, play, end is not enforced by it.
\<close>

theorem toState_any_phase:
  "state (toState st a) = st \<and>
   state (app (step kcs fnd w e)) = (case e of ToState st' \<Rightarrow> st' | _ \<Rightarrow> state (app w))"
proof -
  have "state (app (step kcs fnd w e)) = (case e of ToState st' \<Rightarrow> st' | _ \<Rightarrow> state (app w))"
  proof (cases e)
    case (KeyDown ev ta)
    then show ?thesis
      by (simp add: handleKeypress_def onKeyPress_def Let_def case_prod_beta apply_result_def)
  next
    case (KeyUp ev)
    then show ?thesis by (simp add: handleKeyup_def)
  next
    case (ToState st')
    then show ?thesis by (simp add: toState_fields)
  next
    case (EditBuffer s)
    then show ?thesis by simp
  next
    case (SetAllowTyping b)
    then show ?thesis by simp
  qed
  then show ?thesis by (simp add: toState_fields)
qed

theorem toState_any_phase_witness:
  "state (toState Loading (at_phase End)) = Loading \<and>
   state (app (step sample_keyCodes ls_matcher initial_world (ToState Play))) = Play \<and>
   state (app (step sample_keyCodes ls_matcher initial_world
            (KeyDown \<lparr>keyCode = 13\<rparr> \<lparr>selectionStart = 0\<rparr>))) = Loading"
proof -
  have i: "state (app initial_world) = Loading"
    by (simp add: initial_world_def initial_data_def)
  from i
    toState_any_phase [of Loading "at_phase End" sample_keyCodes ls_matcher
      initial_world "ToState Play"]
    toState_any_phase [of Loading "at_phase End" sample_keyCodes ls_matcher
      initial_world "KeyDown \<lparr>keyCode = 13\<rparr> \<lparr>selectionStart = 0\<rparr>"]
  show ?thesis by simp
qed

text \<open>
  The change from title to play, as \<open>toState\<close> with the \<open>onStateChange\<close> of
  \<open>app.js\<close> performs it, neither enables typing nor resets anything: on a title screen
  that still shows the previous round, \<open>allowTyping\<close> stays false and the score, the
  counters and the timer keep their values.
\<close>

theorem toState_play_keeps_data:
  "state title_with_score = Title \<and>
   allowTyping (toState Play title_with_score) = False \<and>
   score (toState Play title_with_score) = 1200 \<and>
   bash (count (toState Play title_with_score)) = 1 \<and>
   totalValidCommands (count (toState Play title_with_score)) = 1 \<and>
   timer (toState Play title_with_score) = 30"
  by (simp add: toState_def toState_with_def onStateChange_def title_with_score_def initial_data_def)

text \<open>
  C7, as the code has it. The change to play sets the phase to \<open>Play\<close> and
  \<open>titleState\<close> to false and then hands the change, with the phase before as
  \<open>from\<close> and \<open>Play\<close> as \<open>to\<close>, to whatever handler is in \<open>onStateChange\<close>,
  which runs on the data so updated; this is all the method does. With the handler that
  \<open>app.js\<close> defines, which only logs, \<open>allowTyping\<close>, the score, the counters, the
  timer and the buffer are as they were before. Enabling typing and resetting the round
  are left to a handler assigned in its place.
\<close>

theorem toState_play_effect:
  "toState_with hook Play a =
     hook \<lparr>change_from = state a, change_to = Play\<rparr>
       (a\<lparr>state := Play, titleState := Some False\<rparr>) \<and>
   toState Play a = toState_with onStateChange Play a \<and>
   state (toState Play a) = Play \<and> titleState (toState Play a) = Some False \<and>
   allowTyping (toState Play a) = allowTyping a \<and> score (toState Play a) = score a \<and>
   count (toState Play a) = count a \<and> timer (toState Play a) = timer a \<and>
   cmd (toState Play a) = cmd a"
  by (simp add: toState_def toState_with_def onStateChange_def)

theorem toState_play_effect_witness:
  "state (toState Play (at_phase Title)) = Play \<and>
   titleState (toState Play (at_phase Title)) = Some False \<and>
   allowTyping (toState Play (at_phase Title)) = False \<and>
   score (toState Play (at_phase Title)) = 0 \<and>
   state title_with_score = Title \<and>
   state (toState_with start_round Play title_with_score) = Play \<and>
   allowTyping (toState_with start_round Play title_with_score) = True \<and>
   score (toState_with start_round Play title_with_score) = 0 \<and>
   timer (toState_with start_round Play title_with_score) = 0 \<and>
   totalValidCommands (count (toState_with start_round Play title_with_score)) = 0 \<and>
   allowTyping (toState_with start_round End title_with_score) = False"
proof -
  have a: "state (toState Play (at_phase Title)) = Play \<and>
           titleState (toState Play (at_phase Title)) = Some False \<and>
           allowTyping (toState Play (at_phase Title)) = False \<and>
           score (toState Play (at_phase Title)) = 0"
  proof -
    have z: "allowTyping (at_phase Title) = False \<and> score (at_phase Title) = 0"
      by (simp add: at_phase_def initial_data_def)
    have "state (toState Play (at_phase Title)) = Play \<and>
          titleState (toState Play (at_phase Title)) = Some False \<and>
          allowTyping (toState Play (at_phase Title)) = allowTyping (at_phase Title) \<and>
          score (toState Play (at_phase Title)) = score (at_phase Title)"
      using toState_play_effect [of onStateChange "at_phase Title"] by blast
    with z show ?thesis by metis
  qed
  have t: "state title_with_score = Title"
    by (simp add: title_with_score_def)
  have "toState_with start_round Play title_with_score =
          start_round \<lparr>change_from = state title_with_score, change_to = Play\<rparr>
            (title_with_score\<lparr>state := Play, titleState := Some False\<rparr>)"
    using toState_play_effect [of start_round title_with_score] by blast
  then have b: "state (toState_with start_round Play title_with_score) = Play \<and>
           allowTyping (toState_with start_round Play title_with_score) = True \<and>
           score (toState_with start_round Play title_with_score) = 0 \<and>
           timer (toState_with start_round Play title_with_score) = 0 \<and>
           totalValidCommands (count (toState_with start_round Play title_with_score)) = 0"
    unfolding t by (simp add: start_round_def initial_data_def)
  have c: "allowTyping (toState_with start_round End title_with_score) = False"
    by (simp add: toState_with_def start_round_def title_with_score_def initial_data_def)
  from a t b c show ?thesis by blast
qed

section \<open>The control flag and the Enter key in the handlers\<close>

text \<open>
  C9. The flag is meant to follow the control key: the filter's comment reads
  \<open>if ctrl is held down, ignore everything\<close>, and \<open>handleKeyup\<close> clears the flag on
  every key-up of the control code. The key-down is not treated alike. The only
  assignment that sets the flag is inside \<open>validKeycode\<close>, and \<open>handleKeypress\<close>
  returns before it calls the filter when typing is not allowed. A control key that
  goes down while typing is off therefore leaves the flag clear, and once typing is
  switched on a letter typed with the control key still down is accepted; with the same
  keys pressed after typing is switched on the flag is set and the letter rejected.
\<close>

theorem ctrl_key_down_missed_without_typing:
  "keyCode \<lparr>keyCode = 17\<rparr> = ctrl sample_keyCodes \<and>
   allowTyping (app initial_world) = False \<and>
   ctrl_down (fst (handleKeypress sample_keyCodes ls_matcher
                 \<lparr>keyCode = 17\<rparr> \<lparr>selectionStart = 0\<rparr> initial_world)) = False \<and>
   allowTyping (app ctrl_pressed_before_typing) = True \<and>
   ctrl_down ctrl_pressed_before_typing = False \<and>
   snd (handleKeypress sample_keyCodes ls_matcher \<lparr>keyCode = 65\<rparr>
          \<lparr>selectionStart = 0\<rparr> ctrl_pressed_before_typing) = False \<and>
   allowTyping (app ctrl_pressed_while_typing) = True \<and>
   ctrl_down ctrl_pressed_while_typing = True \<and>
   snd (handleKeypress sample_keyCodes ls_matcher \<lparr>keyCode = 65\<rparr>
          \<lparr>selectionStart = 0\<rparr> ctrl_pressed_while_typing) = True"
proof -
  have b: "ctrl_pressed_before_typing =
           \<lparr>app = initial_data\<lparr>allowTyping := True\<rparr>, ctrl_down = False\<rparr>"
    by (simp add: ctrl_pressed_before_typing_def handleKeypress_def onKeyPress_def
        initial_world_def initial_data_def)
  have w: "ctrl_pressed_while_typing =
           \<lparr>app = initial_data\<lparr>allowTyping := True\<rparr>, ctrl_down = True\<rparr>"
    by (simp add: ctrl_pressed_while_typing_def handleKeypress_def onKeyPress_def
        validKeycode_def char_at_def initial_world_def initial_data_def sample_keyCodes_def)
  have k: "keyCode \<lparr>keyCode = 17\<rparr> = ctrl sample_keyCodes"
    by (simp add: sample_keyCodes_def)
  have i: "allowTyping (app initial_world) = False \<and>
           ctrl_down (fst (handleKeypress sample_keyCodes ls_matcher
                 \<lparr>keyCode = 17\<rparr> \<lparr>selectionStart = 0\<rparr> initial_world)) = False"
    by (simp add: handleKeypress_def onKeyPress_def initial_world_def initial_data_def)
  have fb: "snd (handleKeypress sample_keyCodes ls_matcher \<lparr>keyCode = 65\<rparr>
              \<lparr>selectionStart = 0\<rparr> ctrl_pressed_before_typing) = False"
    unfolding b
    by (simp add: handleKeypress_def onKeyPress_def validKeycode_def char_at_def
        inRange_def initial_data_def sample_keyCodes_def)
  have fw: "snd (handleKeypress sample_keyCodes ls_matcher \<lparr>keyCode = 65\<rparr>
              \<lparr>selectionStart = 0\<rparr> ctrl_pressed_while_typing) = True"
    unfolding w
    by (simp add: handleKeypress_def onKeyPress_def validKeycode_def char_at_def
        initial_data_def sample_keyCodes_def)
  have pb: "allowTyping (app ctrl_pressed_before_typing) = True \<and>
            ctrl_down ctrl_pressed_before_typing = False"
    unfolding b by simp
  have pw: "allowTyping (app ctrl_pressed_while_typing) = True \<and>
            ctrl_down ctrl_pressed_while_typing = True"
    unfolding w by simp
  from k i pb fb pw fw show ?thesis by blast
qed

lemma foldl_incr_count_lang:
  "lang_count (foldl incr_count c ls) l = lang_count c l + int (count_list ls l)"
proof (induction ls arbitrary: c)
  case Nil
  show ?case by simp
next
  case (Cons x xs)
  have "lang_count (incr_count c x) l = lang_count c l + (if x = l then 1 else 0)"
    by (cases x; cases l) (simp_all add: lang_count_def)
  with Cons.IH [of "incr_count c x"] show ?case
    by (simp del: incr_count.simps)
qed

lemma apply_result_lang_count:
  "lang_count (count (apply_result r a)) l =
     lang_count (count a) l + int (count_list (result_lang r) l)"
proof -
  have "lang_count (c\<lparr>totalValidCommands := m, totalValidCharacters := n\<rparr>) l = lang_count c l"
    for c m n
    by (cases l) (simp_all add: lang_count_def)
  then show ?thesis
    by (simp add: apply_result_def Let_def foldl_incr_count_lang)
qed

lemma apply_result_chars:
  "totalValidCharacters (count (apply_result r a)) =
     totalValidCharacters (count a) + (if valid r then int (length (result_cmd r)) else 0)"
  by (simp add: apply_result_def Let_def foldl_incr_count_totals)

lemma apply_result_rest:
  "apply_result r a = a\<lparr>score := score (apply_result r a), count := count (apply_result r a)\<rparr>"
  by (simp add: apply_result_def Let_def)

text \<open>
  C10. When typing is allowed, an Enter key-down is handled in full before the
  keystroke filter could be asked, whatever the control flag is. The default is
  prevented and the flag is not touched. The trailing line is tested, and from the
  result every language's count grows by the number of times the language is in the
  result's list, and a valid line adds (10 + its length) * 100 to the score, one to
  \<open>totalValidCommands\<close> and its length to \<open>totalValidCharacters\<close>; nothing but the
  score and the counters changes. The data after the key-down are the same with the flag
  set as with it cleared.
\<close>

theorem enter_before_filter:
  assumes "allowTyping (app w)" and "keyCode ev = enter kcs"
  shows "snd (handleKeypress kcs fnd ev ta w) = True \<and>
         ctrl_down (fst (handleKeypress kcs fnd ev ta w)) = ctrl_down w \<and>
         app (fst (handleKeypress kcs fnd ev ta w)) =
           app (fst (handleKeypress kcs fnd ev ta (w\<lparr>ctrl_down := False\<rparr>))) \<and>
         lang_count (count (app (fst (handleKeypress kcs fnd ev ta w)))) l =
           lang_count (count (app w)) l +
           int (count_list (result_lang (testCmd fnd (app w))) l) \<and>
         score (app (fst (handleKeypress kcs fnd ev ta w))) =
           score (app w) +
           (if valid (testCmd fnd (app w))
            then (10 + int (length (spec_trailing_line (cmd (app w))))) * 100 else 0) \<and>
         totalValidCommands (count (app (fst (handleKeypress kcs fnd ev ta w)))) =
           totalValidCommands (count (app w)) + (if valid (testCmd fnd (app w)) then 1 else 0) \<and>
         totalValidCharacters (count (app (fst (handleKeypress kcs fnd ev ta w)))) =
           totalValidCharacters (count (app w)) +
           (if valid (testCmd fnd (app w))
            then int (length (spec_trailing_line (cmd (app w)))) else 0) \<and>
         app (fst (handleKeypress kcs fnd ev ta w)) =
           (app w)\<lparr>score := score (app (fst (handleKeypress kcs fnd ev ta w))),
                    count := count (app (fst (handleKeypress kcs fnd ev ta w)))\<rparr>"
proof -
  let ?r = "testCmd fnd (app w)"
  from assms have h: "handleKeypress kcs fnd ev ta w =
                      (w\<lparr>app := apply_result ?r (app w)\<rparr>, True)"
    by (simp add: handleKeypress_def onKeyPress_def Let_def)
  from assms have h': "handleKeypress kcs fnd ev ta (w\<lparr>ctrl_down := False\<rparr>) =
      (w\<lparr>ctrl_down := False, app := apply_result ?r (app w)\<rparr>, True)"
    by (simp add: handleKeypress_def onKeyPress_def Let_def)
  have a: "app (fst (handleKeypress kcs fnd ev ta w)) = apply_result ?r (app w)"
    unfolding h by simp
  have a': "app (fst (handleKeypress kcs fnd ev ta (w\<lparr>ctrl_down := False\<rparr>))) =
            apply_result ?r (app w)"
    unfolding h' by simp
  have p: "snd (handleKeypress kcs fnd ev ta w) = True \<and>
           ctrl_down (fst (handleKeypress kcs fnd ev ta w)) = ctrl_down w"
    unfolding h by simp
  have rest: "apply_result ?r (app w) =
              (app w)\<lparr>score := score (apply_result ?r (app w)),
                       count := count (apply_result ?r (app w))\<rparr>"
    by (rule apply_result_rest)
  show ?thesis
    unfolding a a'
    using p rest
    by (simp add: apply_result_score apply_result_total apply_result_chars
        apply_result_lang_count testCmd_line)
qed

theorem enter_before_filter_witness:
  "allowTyping (app typing_with_ctrl_held) \<and> ctrl_down typing_with_ctrl_held \<and>
   keyCode \<lparr>keyCode = 13\<rparr> = enter sample_keyCodes \<and>
   snd (handleKeypress sample_keyCodes ls_matcher \<lparr>keyCode = 13\<rparr>
     \<lparr>selectionStart = 5\<rparr> typing_with_ctrl_held) = True \<and>
   score (app (fst (handleKeypress sample_keyCodes ls_matcher \<lparr>keyCode = 13\<rparr>
     \<lparr>selectionStart = 5\<rparr> typing_with_ctrl_held))) = 1200 \<and>
   totalValidCommands (count (app (fst (handleKeypress sample_keyCodes ls_matcher
     \<lparr>keyCode = 13\<rparr> \<lparr>selectionStart = 5\<rparr> typing_with_ctrl_held)))) = 1 \<and>
   totalValidCharacters (count (app (fst (handleKeypress sample_keyCodes ls_matcher
     \<lparr>keyCode = 13\<rparr> \<lparr>selectionStart = 5\<rparr> typing_with_ctrl_held)))) = 2 \<and>
   lang_count (count (app (fst (handleKeypress sample_keyCodes ls_matcher
     \<lparr>keyCode = 13\<rparr> \<lparr>selectionStart = 5\<rparr> typing_with_ctrl_held)))) Bash = 1 \<and>
   lang_count (count (app (fst (handleKeypress sample_keyCodes ls_matcher
     \<lparr>keyCode = 13\<rparr> \<lparr>selectionStart = 5\<rparr> typing_with_ctrl_held)))) Js = 0"
proof -
  let ?a = "app (fst (handleKeypress sample_keyCodes ls_matcher \<lparr>keyCode = 13\<rparr>
              \<lparr>selectionStart = 5\<rparr> typing_with_ctrl_held))"
  let ?r = "testCmd ls_matcher (app typing_with_ctrl_held)"
  have t: "allowTyping (app typing_with_ctrl_held)"
    by (simp add: typing_with_ctrl_held_def)
  have c: "ctrl_down typing_with_ctrl_held"
    by (simp add: typing_with_ctrl_held_def)
  have k: "keyCode \<lparr>keyCode = 13\<rparr> = enter sample_keyCodes"
    by (simp add: sample_keyCodes_def)
  have v: "valid ?r"
    by code_simp
  have g: "result_lang ?r = [Bash]"
    by code_simp
  have l: "int (length (spec_trailing_line (cmd (app typing_with_ctrl_held)))) = 2"
    by code_simp
  have s: "score (app typing_with_ctrl_held) = 0 \<and>
           totalValidCommands (count (app typing_with_ctrl_held)) = 0 \<and>
           totalValidCharacters (count (app typing_with_ctrl_held)) = 0 \<and>
           lang_count (count (app typing_with_ctrl_held)) Bash = 0 \<and>
           lang_count (count (app typing_with_ctrl_held)) Js = 0"
    by (simp add: typing_with_ctrl_held_def initial_data_def lang_count_def)
  note e = enter_before_filter [OF t k, of ls_matcher "\<lparr>selectionStart = 5\<rparr>"]
  from e have p: "snd (handleKeypress sample_keyCodes ls_matcher \<lparr>keyCode = 13\<rparr>
                    \<lparr>selectionStart = 5\<rparr> typing_with_ctrl_held) = True"
    by blast
  from e have "score ?a =
               score (app typing_with_ctrl_held) +
               (if valid ?r
                then (10 + int (length (spec_trailing_line (cmd (app typing_with_ctrl_held))))) * 100
                else 0)"
    by blast
  then have sc: "score ?a = 1200"
    unfolding l using v s by simp
  from e have "totalValidCommands (count ?a) =
               totalValidCommands (count (app typing_with_ctrl_held)) +
               (if valid ?r then 1 else 0)"
    by blast
  then have tv: "totalValidCommands (count ?a) = 1"
    using v s by simp
  from e have "totalValidCharacters (count ?a) =
               totalValidCharacters (count (app typing_with_ctrl_held)) +
               (if valid ?r
                then int (length (spec_trailing_line (cmd (app typing_with_ctrl_held)))) else 0)"
    by blast
  then have tc: "totalValidCharacters (count ?a) = 2"
    unfolding l using v s by simp
  from e [of Bash] have "lang_count (count ?a) Bash =
               lang_count (count (app typing_with_ctrl_held)) Bash +
               int (count_list (result_lang ?r) Bash)"
    by blast
  then have lb: "lang_count (count ?a) Bash = 1"
    unfolding g using s by simp
  from e [of Js] have "lang_count (count ?a) Js =
               lang_count (count (app typing_with_ctrl_held)) Js +
               int (count_list (result_lang ?r) Js)"
    by blast
  then have lj: "lang_count (count ?a) Js = 0"
    unfolding g using s by simp
  from t c k p sc tv tc lb lj show ?thesis by blast
qed

end
